theory Spec2Isabelle
  imports Complex_Main
begin

section \<open>The rate limiter of \<open>hata/discord/ratelimit.py\<close>\<close>

text \<open>
  The model follows the Python source function by function. Python integers are
  \<open>int\<close>. Timestamps and delays (Python floats, produced by \<open>monotonic()\<close> and
  \<open>float(...)\<close>) are exact rationals: the comparisons and the additions of the source
  are kept, floating point rounding is not modelled. A raised exception is a value of
  type \<open>error\<close>; a function that mutates the handler before it raises returns the
  handler as it was left at the raise.
\<close>

subsection \<open>Constants\<close>

datatype error = TypeError | KeyError | ValueError | AttributeError | RuntimeError | IndexError

definition GLOBALLY_LIMITED :: int where
  "GLOBALLY_LIMITED = 4611686018427387904"

definition RATELIMIT_DROP_ROUND :: rat where
  "RATELIMIT_DROP_ROUND = 20 / 100"

definition MAXIMAL_UNLIMITED_PARARELLITY :: int where
  "MAXIMAL_UNLIMITED_PARARELLITY = - 50"

definition UNLIMITED_SIZE_VALUE :: int where
  "UNLIMITED_SIZE_VALUE = - 10000"

datatype limiter_tag =
    LIMITER_CHANNEL
  | LIMITER_GUILD
  | LIMITER_WEBHOOK
  | LIMITER_GLOBAL
  | LIMITER_UNLIMITED
  | LIMITER_OTHER string

subsection \<open>\<open>RatelimitGroup\<close>\<close>

text \<open>The field \<open>size\<close> of the source is \<open>size_g\<close> here (\<open>size\<close> is a HOL constant).\<close>

record RatelimitGroup =
  group_id :: int
  limiter :: limiter_tag
  size_g :: int

text \<open>
  \<open>RatelimitGroup.__new__\<close>: the class counter \<open>__auto_next_id\<close> is passed in and
  returned advanced by \<open>7 << 8\<close>.
\<close>

definition RatelimitGroup_new :: "int \<Rightarrow> limiter_tag \<Rightarrow> bool \<Rightarrow> RatelimitGroup \<times> int" where
  "RatelimitGroup_new auto_next_id group_limiter optimistic =
     (\<lparr>group_id = auto_next_id, limiter = group_limiter, size_g = (if optimistic then - 1 else 0)\<rparr>,
      auto_next_id + 1792)"

definition RatelimitGroup_unlimited :: RatelimitGroup where
  "RatelimitGroup_unlimited =
     \<lparr>group_id = 0, limiter = LIMITER_UNLIMITED, size_g = UNLIMITED_SIZE_VALUE\<rparr>"

subsection \<open>\<open>RatelimitUnit\<close>: the cooldown ledger\<close>

text \<open>
  A \<open>RatelimitUnit\<close> is a node of a singly linked chain. A chain is the list of its
  nodes, the \<open>next\<close> pointers being the list structure; \<open>None\<close> is the empty list. The
  field \<open>drop\<close> of the source is \<open>drop_t\<close> here (\<open>drop\<close> is a HOL constant).
\<close>

record RatelimitUnit =
  drop_t :: rat
  allocates :: int

text \<open>
  The \<open>while True\<close> loop of \<open>update_with\<close>. The argument is the chain \<open>last.next\<close>; the
  result is the chain that \<open>last.next\<close> points to when the loop is left.
\<close>

fun update_with_walk :: "RatelimitUnit list \<Rightarrow> rat \<Rightarrow> int \<Rightarrow> RatelimitUnit list" where
  "update_with_walk [] new_drop new_allocates =
     [\<lparr>drop_t = new_drop, allocates = new_allocates\<rparr>]"
| "update_with_walk (actual # rest) new_drop new_allocates =
     (let actual_drop = drop_t actual;
          new_drop_max = new_drop + RATELIMIT_DROP_ROUND;
          new_drop_min = new_drop - RATELIMIT_DROP_ROUND
      in if new_drop_max < actual_drop
         then \<lparr>drop_t = new_drop, allocates = new_allocates\<rparr> # actual # rest
         else if new_drop_min > actual_drop
         then actual # update_with_walk rest new_drop new_allocates
         else actual\<lparr>drop_t := (if new_drop < actual_drop then new_drop else actual_drop),
                     allocates := allocates actual + new_allocates\<rparr> # rest)"

text \<open>
  \<open>RatelimitUnit.update_with\<close>, called on the head node \<open>self\<close> whose successors are
  \<open>nexts\<close>. The source overwrites \<open>self\<close> in place when it splices a new head in, so
  that the handler's reference to the head stays valid; the resulting chain is returned.
\<close>

definition update_with :: "RatelimitUnit \<Rightarrow> RatelimitUnit list \<Rightarrow> rat \<Rightarrow> int \<Rightarrow> RatelimitUnit list" where
  "update_with self nexts new_drop new_allocates =
     (let actual_drop = drop_t self;
          new_drop_max = new_drop + RATELIMIT_DROP_ROUND
      in if new_drop_max < actual_drop
         then \<lparr>drop_t = new_drop, allocates = new_allocates\<rparr> # self # nexts
         else let new_drop_min = new_drop - RATELIMIT_DROP_ROUND
              in if new_drop_min > actual_drop
                 then self # update_with_walk nexts new_drop new_allocates
                 else self\<lparr>drop_t := (if new_drop < actual_drop then new_drop else actual_drop),
                           allocates := allocates self + new_allocates\<rparr> # nexts)"

text \<open>\<open>RatelimitHandler.count_drops\<close>, on the chain \<open>self.drops\<close>.\<close>

fun count_drops_from :: "RatelimitUnit list \<Rightarrow> int \<Rightarrow> int" where
  "count_drops_from [] result = result"
| "count_drops_from (u # us) result = count_drops_from us (result + allocates u)"

subsection \<open>\<open>RatelimitHandler\<close>\<close>

text \<open>
  A future is known by its identity. What a handler does to the event loop and to
  futures is returned as a list of events, in the order of the calls:
  \<open>future.set_result(None)\<close>, \<open>wakeupper.cancel()\<close> (with the time the handle was
  scheduled for) and \<open>KOKORO.call_at(when, wakeup, self)\<close>. The field \<open>wakeupper\<close>
  holds the time \<open>when\<close> of the handle it refers to.

  The descriptor \<open>parent\<close> is shared between handlers in the source; the properties
  below concern one handler at a time, so it is a field held by value.
\<close>

type_synonym future = nat

datatype event = Set_result future | Cancel rat | Call_at rat

record RatelimitHandler =
  parent :: RatelimitGroup
  limiter_id :: int
  drops :: "RatelimitUnit list"
  active :: int
  queue :: "future list option"
  wakeupper :: "rat option"

text \<open>
  The result of a method that does not suspend: the handler as it is left, the events
  in order, and the exception raised, if any.
\<close>

datatype outcome =
  Outcome (handler_of: RatelimitHandler) (events_of: "event list") (raised_of: "error option")

text \<open>\<open>RatelimitHandler.__init__\<close>; both tests of the source compare with \<open>LIMITER_UNLIMITED\<close>.\<close>

definition RatelimitHandler_init :: "RatelimitGroup \<Rightarrow> int \<Rightarrow> RatelimitHandler" where
  "RatelimitHandler_init parent_group limiter_id_arg =
     (let limiter_v = limiter parent_group;
          limiter_id_v =
            (if limiter_v = LIMITER_UNLIMITED then 0
             else if limiter_v = LIMITER_UNLIMITED then GLOBALLY_LIMITED
             else limiter_id_arg)
      in \<lparr>parent = parent_group, limiter_id = limiter_id_v, drops = [], active = 0,
          queue = None, wakeupper = None\<rparr>)"

definition count_drops :: "RatelimitHandler \<Rightarrow> int" where
  "count_drops self = count_drops_from (drops self) 0"

text \<open>
  \<open>RatelimitHandler.enter\<close> up to its first suspension. \<open>new_future\<close> is the future that
  \<open>Future(KOKORO)\<close> creates when the call has to wait. \<open>Suspended\<close> means that the
  coroutine awaits that future; once the future is set the coroutine goes on with
  \<open>enter_resumed\<close>.
\<close>

datatype entered = Returned | Suspended

definition enter :: "RatelimitHandler \<Rightarrow> future \<Rightarrow> RatelimitHandler \<times> entered" where
  "enter self new_future =
     (let size0 = size_g (parent self)
      in if size0 < 1 \<and> size0 = UNLIMITED_SIZE_VALUE then (self, Returned)
         else
           let size1 = (if size0 < 1 then (if size0 = 0 then 1 else - size0) else size0);
               queue1 = (case queue self of None \<Rightarrow> [] | Some q \<Rightarrow> q);
               self1 = self\<lparr>queue := Some queue1\<rparr>;
               active1 = active self1;
               left = size1 - active1
           in if left \<le> 0
              then (self1\<lparr>queue := Some (queue1 @ [new_future])\<rparr>, Suspended)
              else
                let left1 = left - count_drops self1
                in if left1 > 0
                   then (self1\<lparr>active := active1 + 1\<rparr>, Returned)
                   else (self1\<lparr>queue := Some (queue1 @ [new_future])\<rparr>, Suspended))"

definition enter_resumed :: "RatelimitHandler \<Rightarrow> RatelimitHandler" where
  "enter_resumed self = self\<lparr>active := active self + 1\<rparr>"

text \<open>
  The loop \<open>while can_free>0: future = queue.popleft(); future.set_result(None);
  can_free-=1\<close>, shared by \<open>exit\<close> and \<open>wakeup\<close>. It returns the futures set, in order,
  and the queue that is left; \<open>popleft\<close> on an empty deque raises \<open>IndexError\<close>.
\<close>

function free_waiters :: "int \<Rightarrow> future list \<Rightarrow> future list \<Rightarrow> error + (future list \<times> future list)" where
  "free_waiters can_free q freed =
     (if can_free > 0
      then (case q of
              [] \<Rightarrow> Inl IndexError
            | fut # q' \<Rightarrow> free_waiters (can_free - 1) q' (freed @ [fut]))
      else Inr (freed, q))"
  by pat_completeness auto
termination
  by (relation "measure (\<lambda>(can_free, q, freed). nat can_free)") auto

declare free_waiters.simps [simp del]

text \<open>\<open>RatelimitHandler.wakeup\<close>.\<close>

definition wakeup :: "RatelimitHandler \<Rightarrow> outcome" where
  "wakeup self =
     (let (drops1, wakeupper1, ev) =
            (case drops self of
               [] \<Rightarrow> ([], None, [])
             | _ # nexts \<Rightarrow>
                 (case nexts of
                    [] \<Rightarrow> ([], None, [])
                  | u # _ \<Rightarrow> (nexts, Some (drop_t u), [Call_at (drop_t u)])));
          self1 = self\<lparr>drops := drops1, wakeupper := wakeupper1\<rparr>
      in case queue self1 of
           None \<Rightarrow> Outcome self1 ev (Some TypeError)
         | Some q \<Rightarrow>
             let queue_ln = int (length q)
             in if queue_ln = 0 then Outcome self1 ev None
                else
                  let size0 = size_g (parent self1);
                      size1 = (if size0 < 0 then - size0 else size0);
                      can_free = size1 - active self1 - count_drops self1;
                      can_free1 = (if can_free > queue_ln then queue_ln else can_free)
                  in case free_waiters can_free1 q [] of
                       Inl e \<Rightarrow> Outcome self1 ev (Some e)
                     | Inr (freed, q') \<Rightarrow>
                         Outcome (self1\<lparr>queue := Some q'\<rparr>) (ev @ map Set_result freed) None)"

text \<open>
  The response headers that \<open>exit\<close> reads. A header that is absent is \<open>None\<close>; a header
  that is present holds the value that \<open>int(...)\<close>, \<open>float(...)\<close> or
  \<open>parsedate_to_datetime(...)\<close> (as a timestamp in seconds) makes of it.
\<close>

record headers =
  RATELIMIT_LIMIT :: "int option"
  RATELIMIT_REMAINING :: "int option"
  RATELIMIT_RESET :: "rat option"
  DATE :: "rat option"
  RATELIMIT_RESET_AFTER :: "rat option"

text \<open>
  \<open>exit\<close>, lines 363 to 380: the \<open>while True\<close> block. \<open>Some (hs, size, optimistic)\<close>
  when the block is left by \<open>break\<close>, \<open>None\<close> when it falls through to \<open>self.wakeup()\<close>.
\<close>

definition exit_size :: "headers option \<Rightarrow> int \<Rightarrow> (headers \<times> int \<times> bool) option" where
  "exit_size hdrs current_size =
     (case hdrs of
        None \<Rightarrow> None
      | Some hs \<Rightarrow>
          (case RATELIMIT_LIMIT hs of
             None \<Rightarrow>
               if current_size < 0
               then Some (hs,
                      (if current_size > MAXIMAL_UNLIMITED_PARARELLITY
                       then current_size - 1 else current_size), True)
               else None
           | Some size1 \<Rightarrow> Some (hs, size1, False)))"

text \<open>\<open>exit\<close>, lines 404 to 415: the waiters released when the size grew.\<close>

definition exit_free :: "RatelimitHandler \<Rightarrow> int \<Rightarrow> int \<Rightarrow> int \<Rightarrow> outcome \<times> int" where
  "exit_free self size1 current_size allocates_v =
     (let can_free = size1 - current_size
      in case queue self of
           None \<Rightarrow> (Outcome self [] (Some TypeError), allocates_v)
         | Some q \<Rightarrow>
             let queue_ln = int (length q);
                 can_free1 = (if can_free > queue_ln then queue_ln else can_free)
             in case free_waiters can_free1 q [] of
                  Inl e \<Rightarrow> (Outcome self [] (Some e), allocates_v)
                | Inr (freed, q') \<Rightarrow>
                    (Outcome (self\<lparr>queue := Some q'\<rparr>) (map Set_result freed) None, allocates_v))"

text \<open>
  \<open>exit\<close>, lines 389 to 415: the descriptor is updated and \<open>allocates\<close> computed. The
  second component is \<open>allocates\<close>.
\<close>

definition exit_resize :: "RatelimitHandler \<Rightarrow> headers \<Rightarrow> int \<Rightarrow> int \<Rightarrow> bool \<Rightarrow> outcome \<times> int" where
  "exit_resize self hs size1 current_size optimistic =
     (let allocates_v = 1
      in if size1 \<noteq> current_size
         then
           let self1 = self\<lparr>parent := (parent self)\<lparr>size_g := size1\<rparr>\<rparr>;
               current_size1 = (if optimistic then - current_size else current_size);
               size2 = (if optimistic then - size1 else size1)
           in if size2 > current_size1
              then
                (if current_size1 = - 1
                 then (case RATELIMIT_REMAINING hs of
                         None \<Rightarrow> (Outcome self1 [] (Some KeyError), allocates_v)
                       | Some remaining \<Rightarrow> exit_free self1 size2 1 (size2 - remaining))
                 else exit_free self1 size2 current_size1 allocates_v)
              else (Outcome self1 [] None, allocates_v)
         else (Outcome self [] None, allocates_v))"

text \<open>\<open>exit\<close>, lines 417 to 428: the delay until the cooldown expires.\<close>

definition exit_delay :: "headers \<Rightarrow> bool \<Rightarrow> error + rat" where
  "exit_delay hs optimistic =
     (if optimistic then Inr 1
      else case RATELIMIT_RESET hs of
             None \<Rightarrow> Inl KeyError
           | Some reset \<Rightarrow>
               (case DATE hs of
                  None \<Rightarrow> Inl KeyError
                | Some date \<Rightarrow>
                    let delay1 = reset - date
                    in (case RATELIMIT_RESET_AFTER hs of
                          None \<Rightarrow> Inl KeyError
                        | Some delay2 \<Rightarrow> Inr (if delay1 < delay2 then delay1 else delay2))))"

text \<open>\<open>exit\<close>, lines 432 to 449: the cooldown is recorded and the wakeup scheduled.\<close>

definition exit_schedule :: "RatelimitHandler \<Rightarrow> rat \<Rightarrow> int \<Rightarrow> RatelimitHandler \<times> event list" where
  "exit_schedule self new_drop allocates_v =
     (let self1 = self\<lparr>drops :=
            (case drops self of
               [] \<Rightarrow> [\<lparr>drop_t = new_drop, allocates = allocates_v\<rparr>]
             | u # us \<Rightarrow> update_with u us new_drop allocates_v)\<rparr>
      in case wakeupper self1 of
           None \<Rightarrow> (self1\<lparr>wakeupper := Some new_drop\<rparr>, [Call_at new_drop])
         | Some when \<Rightarrow>
             if when \<le> new_drop then (self1, [])
             else (self1\<lparr>wakeupper := Some new_drop\<rparr>, [Cancel when, Call_at new_drop]))"

text \<open>\<open>RatelimitHandler.exit\<close>; \<open>now\<close> is the value of \<open>monotonic()\<close> at line 430.\<close>

definition exit :: "RatelimitHandler \<Rightarrow> headers option \<Rightarrow> rat \<Rightarrow> outcome" where
  "exit self hdrs now =
     (let current_size = size_g (parent self)
      in if current_size = UNLIMITED_SIZE_VALUE then Outcome self [] None
         else
           let self1 = self\<lparr>active := active self - 1\<rparr>
           in case exit_size hdrs current_size of
                None \<Rightarrow>
                  let (self2, ev) =
                        (case wakeupper self1 of
                           None \<Rightarrow> (self1, [])
                         | Some when \<Rightarrow> (self1\<lparr>wakeupper := None\<rparr>, [Cancel when]))
                  in (case wakeup self2 of
                        Outcome self3 ev' r \<Rightarrow> Outcome self3 (ev @ ev') r)
              | Some (hs, size1, optimistic) \<Rightarrow>
                  (case exit_resize self1 hs size1 current_size optimistic of
                     (Outcome self2 ev (Some e), _) \<Rightarrow> Outcome self2 ev (Some e)
                   | (Outcome self2 ev None, allocates_v) \<Rightarrow>
                       (case exit_delay hs optimistic of
                          Inl e \<Rightarrow> Outcome self2 ev (Some e)
                        | Inr delay \<Rightarrow>
                            let new_drop = now + delay;
                                (self3, ev') = exit_schedule self2 new_drop allocates_v
                            in Outcome self3 (ev @ ev') None)))"

text \<open>A run of \<open>exit\<close> calls, each with its headers and its clock value.\<close>

fun exits :: "RatelimitHandler \<Rightarrow> (headers option \<times> rat) list \<Rightarrow> RatelimitHandler" where
  "exits self [] = self"
| "exits self ((hdrs, now) # calls) = exits (handler_of (exit self hdrs now)) calls"

subsection \<open>\<open>RatelimitProxy\<close>\<close>

text \<open>
  Modelled from the spec: the classes \<open>Guild\<close>, \<open>ChannelBase\<close>, \<open>Message\<close>, \<open>Role\<close>,
  \<open>Webhook\<close> and \<open>WebhookRepr\<close> are placeholders in \<open>ratelimit.py\<close> and are defined
  elsewhere. Of a scope object only what \<open>RatelimitProxy.__new__\<close> reads is kept: its
  class, its \<open>id\<close> (for a message the \<open>id\<close> of its channel) and, for all but a guild, the
  \<open>id\<close> of its \<open>guild\<close> or \<open>None\<close>. \<open>Another_object\<close> is an object of any other class, \<open>None\<close>
  included.
\<close>

datatype scope_object =
    A_Guild int
  | A_Channel int "int option"
  | A_Message int "int option"
  | A_Role int "int option"
  | A_Webhook int "int option"
  | A_WebhookRepr int "int option"
  | Another_object

text \<open>
  \<open>RatelimitProxy.__new__\<close>, lines 527 to 565: the \<open>while True\<close> block that computes
  \<open>limiter_id\<close>. In the guild branch the source reads \<open>group.id\<close>; \<open>RatelimitGroup\<close> has
  the slots \<open>group_id\<close>, \<open>limiter\<close> and \<open>size\<close> only, so that read raises
  \<open>AttributeError\<close>.
\<close>

definition guild_of :: "scope_object \<Rightarrow> int option option" where
  "guild_of limiter_obj =
     (case limiter_obj of
        A_Channel _ g \<Rightarrow> Some g
      | A_Message _ g \<Rightarrow> Some g
      | A_Role _ g \<Rightarrow> Some g
      | A_Webhook _ g \<Rightarrow> Some g
      | A_WebhookRepr _ g \<Rightarrow> Some g
      | _ \<Rightarrow> None)"

definition proxy_limiter_id :: "RatelimitGroup \<Rightarrow> scope_object \<Rightarrow> error + int" where
  "proxy_limiter_id group_v limiter_obj =
     (case limiter group_v of
        LIMITER_GLOBAL \<Rightarrow> Inr GLOBALLY_LIMITED
      | LIMITER_UNLIMITED \<Rightarrow> Inr 0
      | LIMITER_CHANNEL \<Rightarrow>
          (case limiter_obj of
             A_Channel i _ \<Rightarrow> Inr i
           | A_Message channel_id _ \<Rightarrow> Inr channel_id
           | _ \<Rightarrow> Inl ValueError)
      | LIMITER_GUILD \<Rightarrow>
          (case limiter_obj of
             A_Guild i \<Rightarrow> Inr i
           | _ \<Rightarrow>
               (case guild_of limiter_obj of
                  Some (Some guild) \<Rightarrow> Inl AttributeError
                | _ \<Rightarrow> Inl ValueError))
      | LIMITER_WEBHOOK \<Rightarrow>
          (case limiter_obj of
             A_Webhook i _ \<Rightarrow> Inr i
           | A_WebhookRepr i _ \<Rightarrow> Inr i
           | _ \<Rightarrow> Inl ValueError)
      | LIMITER_OTHER _ \<Rightarrow> Inl RuntimeError)"

text \<open>
  \<open>RatelimitProxy.__new__\<close> with \<open>keep_alive = False\<close>: the proxy holds its group and
  its own key, a fresh handler. (With \<open>keep_alive\<close> set the key is the registered handler
  equal to it, which has the same \<open>limiter_id\<close>.)
\<close>

record RatelimitProxy =
  group_p :: RatelimitGroup
  key_p :: RatelimitHandler

definition RatelimitProxy_new :: "RatelimitGroup \<Rightarrow> scope_object \<Rightarrow> error + RatelimitProxy" where
  "RatelimitProxy_new group_v limiter_obj =
     (case proxy_limiter_id group_v limiter_obj of
        Inl e \<Rightarrow> Inl e
      | Inr limiter_id_v \<Rightarrow>
          Inr \<lparr>group_p = group_v, key_p = RatelimitHandler_init group_v limiter_id_v\<rparr>)"

definition proxy_limiter_id_of :: "RatelimitProxy \<Rightarrow> int" where
  "proxy_limiter_id_of self = limiter_id (key_p self)"

text \<open>
  The introspection properties. Each starts with \<open>handler = self.handler\<close>, a lookup in
  the client's handler registry, which is not part of \<open>ratelimit.py\<close>: the handler it
  resolves to (\<open>None\<close> when there is none) is an argument. \<open>now\<close> is \<open>monotonic()\<close>.

  \<open>next_reset_at\<close> and \<open>next_reset_after\<close> test \<open>not drops\<close> and read \<open>drops[0]\<close> on a
  \<open>RatelimitUnit\<close>. The class defines neither \<open>__bool__\<close> nor \<open>__len__\<close>, so a node is
  true, and it defines no \<open>__getitem__\<close>, so the subscription raises \<open>TypeError\<close>.
\<close>

definition used_count :: "RatelimitHandler option \<Rightarrow> int" where
  "used_count handler_v =
     (case handler_v of
        None \<Rightarrow> 0
      | Some h \<Rightarrow> active h + count_drops h)"

definition free_count :: "RatelimitGroup \<Rightarrow> RatelimitHandler option \<Rightarrow> int" where
  "free_count group_v handler_v =
     (let size0 = size_g group_v
      in if size0 < 1 \<and> size0 \<noteq> 0 \<and> size0 = UNLIMITED_SIZE_VALUE then 0
         else
           let size1 = (if size0 < 1 then (if size0 = 0 then 1 else - size0) else size0)
           in case handler_v of
                None \<Rightarrow> size1
              | Some h \<Rightarrow> size1 - active h - count_drops h)"

definition waiting_count :: "RatelimitHandler option \<Rightarrow> int" where
  "waiting_count handler_v =
     (case handler_v of
        None \<Rightarrow> 0
      | Some h \<Rightarrow> (case queue h of None \<Rightarrow> 0 | Some q \<Rightarrow> int (length q)))"

definition next_reset_at :: "RatelimitHandler option \<Rightarrow> error + rat" where
  "next_reset_at handler_v =
     (case handler_v of
        None \<Rightarrow> Inr 0
      | Some h \<Rightarrow>
          (case drops h of
             [] \<Rightarrow> Inr 0
           | u # us \<Rightarrow> Inl TypeError))"

definition next_reset_after :: "RatelimitHandler option \<Rightarrow> rat \<Rightarrow> error + rat" where
  "next_reset_after handler_v now =
     (case handler_v of
        None \<Rightarrow> Inr 0
      | Some h \<Rightarrow>
          (case drops h of
             [] \<Rightarrow> Inr 0
           | u # us \<Rightarrow> Inl TypeError))"

subsubsection \<open>The ledger as the specification words it\<close>

text \<open>
  The specification's description of \<open>update_with\<close>, written down independently of the
  source: a node is within the tolerance of the new expiry when the two differ by at
  most 0.20s in either direction.
\<close>

fun spec_walk :: "RatelimitUnit list \<Rightarrow> rat \<Rightarrow> int \<Rightarrow> RatelimitUnit list" where
  "spec_walk [] d a = [\<lparr>drop_t = d, allocates = a\<rparr>]"
| "spec_walk (n # ns) d a =
     (if \<bar>drop_t n - d\<bar> \<le> 20 / 100
      then \<lparr>drop_t = min (drop_t n) d, allocates = allocates n + a\<rparr> # ns
      else if drop_t n - d > 20 / 100
      then \<lparr>drop_t = d, allocates = a\<rparr> # n # ns
      else n # spec_walk ns d a)"

fun spec_update_with :: "RatelimitUnit list \<Rightarrow> rat \<Rightarrow> int \<Rightarrow> RatelimitUnit list" where
  "spec_update_with [] d a = []"
| "spec_update_with (h # t) d a =
     (if drop_t h - d > 20 / 100
      then \<lparr>drop_t = d, allocates = a\<rparr> # h # t
      else spec_walk (h # t) d a)"

text \<open>Consecutive nodes lie more than the tolerance apart: no two nodes could be merged.\<close>

fun coalesced :: "RatelimitUnit list \<Rightarrow> bool" where
  "coalesced [] = True"
| "coalesced [u] = True"
| "coalesced (u # v # us) = (drop_t u + RATELIMIT_DROP_ROUND < drop_t v \<and> coalesced (v # us))"

subsection \<open>Notions used to state the properties\<close>

text \<open>
  The effective size as the specification words it: \<open>0\<close> counts as \<open>1\<close>, a negative
  size as its absolute value.
\<close>

definition effective_size :: "int \<Rightarrow> int" where
  "effective_size s = (if s = 0 then 1 else \<bar>s\<bar>)"

text \<open>The futures waiting in the queue of a handler; none when the queue is not created yet.\<close>

definition waiting :: "RatelimitHandler \<Rightarrow> future list" where
  "waiting self = (case queue self of None \<Rightarrow> [] | Some q \<Rightarrow> q)"

text \<open>The expiry of the head of a chain, if there is one.\<close>

definition next_wakeup :: "RatelimitUnit list \<Rightarrow> rat option" where
  "next_wakeup us = (case us of [] \<Rightarrow> None | u # _ \<Rightarrow> Some (drop_t u))"

text \<open>
  The number of waiters \<open>wakeup\<close> releases from the queue \<open>q\<close>: the free capacity
  \<open>\<bar>size\<bar> - active - count_drops()\<close>, at most the length of the queue and at least
  none.
\<close>

definition can_free_of :: "RatelimitHandler \<Rightarrow> future list \<Rightarrow> nat" where
  "can_free_of self q =
     nat (min (\<bar>size_g (parent self)\<bar> - active self - sum_list (map allocates (drops self)))
              (int (length q)))"

text \<open>
  Headers that lack the explicit limit header; no headers at all (\<open>None\<close>) lack it too.
\<close>

definition lacks_limit :: "headers option \<Rightarrow> bool" where
  "lacks_limit hdrs = (case hdrs of None \<Rightarrow> True | Some hs \<Rightarrow> RATELIMIT_LIMIT hs = None)"

text \<open>A response that carries none of the headers \<open>exit\<close> reads.\<close>

definition no_headers :: headers where
  "no_headers = \<lparr>RATELIMIT_LIMIT = None, RATELIMIT_REMAINING = None, RATELIMIT_RESET = None,
     DATE = None, RATELIMIT_RESET_AFTER = None\<rparr>"


section \<open>Properties of the cooldown ledger\<close>

lemma update_with_walk_spec:
  "update_with_walk ns d a = spec_walk ns d a"
proof (induction ns)
  case Nil
  show ?case by simp
next
  case (Cons n ns)
  have merged: "n\<lparr>drop_t := (if d < drop_t n then d else drop_t n), allocates := allocates n + a\<rparr>
      = \<lparr>drop_t = min (drop_t n) d, allocates = allocates n + a\<rparr>"
    by (cases n) (simp add: min_def)
  show ?case
    using Cons.IH merged
    by (auto simp: Let_def RATELIMIT_DROP_ROUND_def abs_if)
qed

lemma update_with_spec:
  "update_with self nexts d a = spec_update_with (self # nexts) d a"
proof -
  have merged: "self\<lparr>drop_t := (if d < drop_t self then d else drop_t self),
        allocates := allocates self + a\<rparr>
      = \<lparr>drop_t = min (drop_t self) d, allocates = allocates self + a\<rparr>"
    by (cases self) (simp add: min_def)
  show ?thesis
    using merged
    by (auto simp: update_with_def Let_def RATELIMIT_DROP_ROUND_def abs_if update_with_walk_spec)
qed

lemma coalesced_walk:
  "coalesced (p # ns) \<Longrightarrow> drop_t p + RATELIMIT_DROP_ROUND < d \<Longrightarrow> coalesced (p # update_with_walk ns d a)"
proof (induction ns arbitrary: p)
  case Nil
  then show ?case by simp
next
  case (Cons actual rest)
  show ?case
  proof (cases "d + RATELIMIT_DROP_ROUND < drop_t actual")
    case True
    with Cons.prems show ?thesis by (simp add: Let_def)
  next
    case high: False
    show ?thesis
    proof (cases "d - RATELIMIT_DROP_ROUND > drop_t actual")
      case True
      then have "drop_t actual + RATELIMIT_DROP_ROUND < d" by simp
      with Cons.prems have "coalesced (actual # update_with_walk rest d a)"
        by (intro Cons.IH) simp_all
      with Cons.prems high True show ?thesis by (simp add: Let_def)
    next
      case False
      with Cons.prems high show ?thesis
        by (cases rest) (auto simp: Let_def)
    qed
  qed
qed

lemma coalesced_update_with:
  "coalesced (self # nexts) \<Longrightarrow> coalesced (update_with self nexts d a)"
proof (cases "d + RATELIMIT_DROP_ROUND < drop_t self")
  case True
  assume "coalesced (self # nexts)"
  with True show ?thesis by (simp add: update_with_def Let_def)
next
  case high: False
  assume c: "coalesced (self # nexts)"
  show ?thesis
  proof (cases "d - RATELIMIT_DROP_ROUND > drop_t self")
    case True
    then have "drop_t self + RATELIMIT_DROP_ROUND < d" by simp
    with c have "coalesced (self # update_with_walk nexts d a)" by (rule coalesced_walk)
    with high True show ?thesis by (simp add: update_with_def Let_def)
  next
    case False
    with c high show ?thesis
      by (cases nexts) (auto simp: update_with_def Let_def)
  qed
qed

lemma sorted_walk:
  "sorted (map drop_t (p # ns)) \<Longrightarrow> drop_t p + RATELIMIT_DROP_ROUND < d \<Longrightarrow> sorted (map drop_t (p # update_with_walk ns d a))"
proof (induction ns arbitrary: p)
  case Nil
  then show ?case by (simp add: RATELIMIT_DROP_ROUND_def)
next
  case (Cons actual rest)
  show ?case
  proof (cases "d + RATELIMIT_DROP_ROUND < drop_t actual")
    case True
    with Cons.prems show ?thesis by (auto simp add: Let_def RATELIMIT_DROP_ROUND_def)
  next
    case high: False
    show ?thesis
    proof (cases "d - RATELIMIT_DROP_ROUND > drop_t actual")
      case True
      then have "drop_t actual + RATELIMIT_DROP_ROUND < d" by simp
      with Cons.prems have "sorted (map drop_t (actual # update_with_walk rest d a))"
        by (intro Cons.IH) simp_all
      with Cons.prems high True show ?thesis by (auto simp add: Let_def)
    next
      case False
      with Cons.prems high show ?thesis
        by (auto simp: Let_def RATELIMIT_DROP_ROUND_def)
    qed
  qed
qed

lemma sorted_update_with:
  "sorted (map drop_t (self # nexts)) \<Longrightarrow> sorted (map drop_t (update_with self nexts d a))"
proof (cases "d + RATELIMIT_DROP_ROUND < drop_t self")
  case True
  assume "sorted (map drop_t (self # nexts))"
  with True show ?thesis by (auto simp add: update_with_def Let_def RATELIMIT_DROP_ROUND_def)
next
  case high: False
  assume c: "sorted (map drop_t (self # nexts))"
  show ?thesis
  proof (cases "d - RATELIMIT_DROP_ROUND > drop_t self")
    case True
    then have "drop_t self + RATELIMIT_DROP_ROUND < d" by simp
    with c have "sorted (map drop_t (self # update_with_walk nexts d a))" by (rule sorted_walk)
    with high True show ?thesis by (simp add: update_with_def Let_def)
  next
    case False
    with c high show ?thesis
      by (auto simp: update_with_def Let_def)
  qed
qed

text \<open>
  Claim C2. \<open>RatelimitUnit.update_with(drop, allocates)\<close> does what the specification
  describes: a new head is spliced in when the new expiry is more than 0.20s before the
  head's; otherwise the chain is walked to the first node within 0.20s of the new
  expiry (merged: the smaller expiry is kept, the allocations are added), or to the
  first node more than 0.20s later (a new node goes before it), or to the end (a new
  tail). A chain sorted by expiry stays sorted, and a chain whose neighbours lie more
  than 0.20s apart stays so. From the single node (10.0, 1), \<open>update_with(10.15, 2)\<close>
  gives the single node (10.0, 3), and \<open>update_with(20.0, 1)\<close> then gives two nodes.
\<close>

theorem update_with_ledger:
  "update_with self nexts d a = spec_update_with (self # nexts) d a
   \<and> (sorted (map drop_t (self # nexts)) \<longrightarrow> sorted (map drop_t (update_with self nexts d a)))
   \<and> (coalesced (self # nexts) \<longrightarrow> coalesced (update_with self nexts d a))
   \<and> update_with \<lparr>drop_t = 10, allocates = 1\<rparr> [] (1015 / 100) 2
       = [\<lparr>drop_t = 10, allocates = 3\<rparr>]
   \<and> update_with \<lparr>drop_t = 10, allocates = 3\<rparr> [] 20 1
       = [\<lparr>drop_t = 10, allocates = 3\<rparr>, \<lparr>drop_t = 20, allocates = 1\<rparr>]"
proof -
  have first: "update_with \<lparr>drop_t = 10, allocates = 1\<rparr> [] (1015 / 100) 2
      = [\<lparr>drop_t = 10, allocates = 3\<rparr>]"
    by (simp add: update_with_def RATELIMIT_DROP_ROUND_def Let_def)
  have second: "update_with \<lparr>drop_t = 10, allocates = 3\<rparr> [] 20 1
      = [\<lparr>drop_t = 10, allocates = 3\<rparr>, \<lparr>drop_t = 20, allocates = 1\<rparr>]"
    by (simp add: update_with_def RATELIMIT_DROP_ROUND_def Let_def)
  show ?thesis
    using update_with_spec [of self nexts d a] sorted_update_with [of self nexts d a]
      coalesced_update_with [of self nexts d a] first second
    by blast
qed

text \<open>
  The ledger (10.0, 1), (10.5, 1) is sorted and coalesced; an expiry at 10.35 is merged
  into the second node, whose expiry moves down to 10.35.
\<close>

theorem update_with_ledger_witness:
  "sorted (map drop_t [\<lparr>drop_t = 10, allocates = 1\<rparr>, \<lparr>drop_t = 105 / 10, allocates = 1\<rparr>])
   \<and> coalesced [\<lparr>drop_t = 10, allocates = 1\<rparr>, \<lparr>drop_t = 105 / 10, allocates = 1\<rparr>]
   \<and> update_with \<lparr>drop_t = 10, allocates = 1\<rparr> [\<lparr>drop_t = 105 / 10, allocates = 1\<rparr>] (1035 / 100) 2
       = [\<lparr>drop_t = 10, allocates = 1\<rparr>, \<lparr>drop_t = 1035 / 100, allocates = 3\<rparr>]
   \<and> sorted (map drop_t
        (update_with \<lparr>drop_t = 10, allocates = 1\<rparr> [\<lparr>drop_t = 105 / 10, allocates = 1\<rparr>] (1035 / 100) 2))
   \<and> coalesced
        (update_with \<lparr>drop_t = 10, allocates = 1\<rparr> [\<lparr>drop_t = 105 / 10, allocates = 1\<rparr>] (1035 / 100) 2)"
proof -
  have s: "sorted (map drop_t [\<lparr>drop_t = 10, allocates = 1\<rparr>, \<lparr>drop_t = 105 / 10, allocates = 1\<rparr>])"
    by simp
  have c: "coalesced [\<lparr>drop_t = 10, allocates = 1\<rparr>, \<lparr>drop_t = 105 / 10, allocates = 1\<rparr>]"
    by (simp add: RATELIMIT_DROP_ROUND_def)
  have v: "update_with \<lparr>drop_t = 10, allocates = 1\<rparr> [\<lparr>drop_t = 105 / 10, allocates = 1\<rparr>] (1035 / 100) 2
       = [\<lparr>drop_t = 10, allocates = 1\<rparr>, \<lparr>drop_t = 1035 / 100, allocates = 3\<rparr>]"
    by (simp add: update_with_def RATELIMIT_DROP_ROUND_def Let_def)
  show ?thesis
    using s c v
      update_with_ledger [of "\<lparr>drop_t = 10, allocates = 1\<rparr>"
        "[\<lparr>drop_t = 105 / 10, allocates = 1\<rparr>]" "1035 / 100" 2]
    by blast
qed

section \<open>Properties of the handler\<close>

subsection \<open>\<open>enter\<close>\<close>

lemma count_drops_queue [simp]: "count_drops (self\<lparr>queue := q\<rparr>) = count_drops self"
  by (simp add: count_drops_def)

text \<open>
  Claim C1, as the source has it. When \<open>parent.size\<close> is the unlimited sentinel,
  \<open>enter()\<close> returns at once and leaves the handler as it is. Otherwise the effective
  size is computed from \<open>parent.size\<close> (0 counts as 1, a negative size as its absolute
  value), and the call suspends, its future appended to the queue, exactly when
  \<open>size - active\<close> or \<open>size - active - count_drops()\<close> is not positive; otherwise
  \<open>active\<close> goes up by one and the call returns. Whether waiters are queued already
  plays no part.
\<close>

theorem enter_admission:
  "(size_g (parent self) = UNLIMITED_SIZE_VALUE \<longrightarrow> enter self f = (self, Returned))
   \<and> (size_g (parent self) \<noteq> UNLIMITED_SIZE_VALUE \<longrightarrow>
        enter self f =
          (if effective_size (size_g (parent self)) - active self \<le> 0
              \<or> effective_size (size_g (parent self)) - active self - count_drops self \<le> 0
           then (self\<lparr>queue := Some (waiting self @ [f])\<rparr>, Suspended)
           else (self\<lparr>queue := Some (waiting self), active := active self + 1\<rparr>, Returned)))"
  by (auto simp: enter_def Let_def effective_size_def waiting_def UNLIMITED_SIZE_VALUE_def
      split: option.splits)

text \<open>
  An unlimited handler is left as it is; a handler of size 2 with one request in flight
  and one slot in cooldown makes the next caller wait.
\<close>

theorem enter_admission_witness:
  "enter \<lparr>parent = RatelimitGroup_unlimited, limiter_id = 0, drops = [], active = 0,
           queue = None, wakeupper = None\<rparr> 4
     = (\<lparr>parent = RatelimitGroup_unlimited, limiter_id = 0, drops = [], active = 0,
           queue = None, wakeupper = None\<rparr>, Returned)
   \<and> enter \<lparr>parent = \<lparr>group_id = 26880, limiter = LIMITER_GLOBAL, size_g = - 2\<rparr>,
           limiter_id = GLOBALLY_LIMITED, drops = [\<lparr>drop_t = 3, allocates = 1\<rparr>], active = 1,
           queue = None, wakeupper = Some 3\<rparr> 4
     = (\<lparr>parent = \<lparr>group_id = 26880, limiter = LIMITER_GLOBAL, size_g = - 2\<rparr>,
           limiter_id = GLOBALLY_LIMITED, drops = [\<lparr>drop_t = 3, allocates = 1\<rparr>], active = 1,
           queue = Some [4], wakeupper = Some 3\<rparr>, Suspended)"
  using
    enter_admission [of "\<lparr>parent = RatelimitGroup_unlimited, limiter_id = 0, drops = [],
      active = 0, queue = None, wakeupper = None\<rparr>" 4]
    enter_admission [of "\<lparr>parent = \<lparr>group_id = 26880, limiter = LIMITER_GLOBAL, size_g = - 2\<rparr>,
      limiter_id = GLOBALLY_LIMITED, drops = [\<lparr>drop_t = 3, allocates = 1\<rparr>], active = 1,
      queue = None, wakeupper = Some 3\<rparr>" 4]
  by (simp add: RatelimitGroup_unlimited_def UNLIMITED_SIZE_VALUE_def effective_size_def
      waiting_def count_drops_def)

text \<open>
  Against claim C1 as it is stated: a handler of unset size 0 (effective size 1) with
  nothing in flight, no cooldown, and the waiter 2 in its queue. The claim makes
  \<open>enter()\<close> suspend, since a waiter is queued; the source admits the caller at once.
\<close>

theorem enter_queued_counterexample:
  "waiting \<lparr>parent = \<lparr>group_id = 26880, limiter = LIMITER_GLOBAL, size_g = 0\<rparr>,
            limiter_id = GLOBALLY_LIMITED, drops = [], active = 0, queue = Some [2],
            wakeupper = None\<rparr> \<noteq> []
   \<and> enter \<lparr>parent = \<lparr>group_id = 26880, limiter = LIMITER_GLOBAL, size_g = 0\<rparr>,
            limiter_id = GLOBALLY_LIMITED, drops = [], active = 0, queue = Some [2],
            wakeupper = None\<rparr> 3
      = (\<lparr>parent = \<lparr>group_id = 26880, limiter = LIMITER_GLOBAL, size_g = 0\<rparr>,
            limiter_id = GLOBALLY_LIMITED, drops = [], active = 1, queue = Some [2],
            wakeupper = None\<rparr>, Returned)"
  by (simp add: enter_def Let_def count_drops_def UNLIMITED_SIZE_VALUE_def waiting_def)

subsection \<open>\<open>wakeup\<close>\<close>

lemma free_waiters_take:
  "k \<le> int (length q) \<Longrightarrow> free_waiters k q acc = Inr (acc @ take (nat k) q, drop (nat k) q)"
proof (induction k q acc rule: free_waiters.induct)
  case (1 can_free q freed)
  show ?case
  proof (cases "can_free > 0")
    case False
    then show ?thesis by (simp add: free_waiters.simps)
  next
    case True
    show ?thesis
    proof (cases q)
      case Nil
      with True "1.prems" show ?thesis by simp
    next
      case (Cons fut q')
      with True "1.prems" have le: "can_free - 1 \<le> int (length q')" by simp
      from True have n: "nat can_free = Suc (nat (can_free - 1))" by simp
      have "free_waiters can_free q freed = free_waiters (can_free - 1) q' (freed @ [fut])"
        using True Cons by (simp add: free_waiters.simps [of can_free])
      also have "\<dots> = Inr ((freed @ [fut]) @ take (nat (can_free - 1)) q', drop (nat (can_free - 1)) q')"
        using "1.IH" [OF True Cons le] .
      finally show ?thesis using Cons n by simp
    qed
  qed
qed

lemma count_drops_from_sum:
  "count_drops_from us r = r + sum_list (map allocates us)"
  by (induction us arbitrary: r) simp_all

lemma count_drops_sum: "count_drops self = sum_list (map allocates (drops self))"
  by (simp add: count_drops_def count_drops_from_sum)

lemma wakeup_queued:
  assumes "queue self = Some q"
  shows "wakeup self =
     Outcome (self\<lparr>drops := tl (drops self), wakeupper := next_wakeup (tl (drops self)),
                   queue := Some (drop (can_free_of (self\<lparr>drops := tl (drops self)\<rparr>) q) q)\<rparr>)
       ((case next_wakeup (tl (drops self)) of None \<Rightarrow> [] | Some w \<Rightarrow> [Call_at w])
          @ map Set_result (take (can_free_of (self\<lparr>drops := tl (drops self)\<rparr>) q) q))
       None"
proof -
  define ds where "ds = tl (drops self)"
  have split: "(case drops self of [] \<Rightarrow> ([], None, [])
      | _ # nexts \<Rightarrow> (case nexts of [] \<Rightarrow> ([], None, [])
                       | u # _ \<Rightarrow> (nexts, Some (drop_t u), [Call_at (drop_t u)])))
      = (ds, next_wakeup ds, (case next_wakeup ds of None \<Rightarrow> [] | Some w \<Rightarrow> [Call_at w]))"
    unfolding ds_def by (simp add: next_wakeup_def split: list.split)
  let ?self1 = "self\<lparr>drops := ds, wakeupper := next_wakeup ds\<rparr>"
  let ?cf = "(if size_g (parent self) < 0 then - size_g (parent self) else size_g (parent self))
               - active self - count_drops ?self1"
  let ?cf1 = "if ?cf > int (length q) then int (length q) else ?cf"
  have le: "?cf1 \<le> int (length q)" by simp
  have k: "nat ?cf1 = can_free_of (self\<lparr>drops := ds\<rparr>) q"
    by (simp add: can_free_of_def count_drops_sum min_def abs_if)
  have fw: "free_waiters ?cf1 q [] = Inr ([] @ take (nat ?cf1) q, drop (nat ?cf1) q)"
    using le by (rule free_waiters_take)
  have k0: "q = [] \<Longrightarrow> can_free_of (self\<lparr>drops := ds\<rparr>) q = 0"
    by (simp add: can_free_of_def)
  show ?thesis
    unfolding wakeup_def split ds_def [symmetric]
    using assms k0
    by (simp add: Let_def fw k)
qed

lemma wakeup_unqueued:
  "queue self = None \<Longrightarrow>
     wakeup self = Outcome (self\<lparr>drops := tl (drops self), wakeupper := next_wakeup (tl (drops self))\<rparr>)
       (case next_wakeup (tl (drops self)) of None \<Rightarrow> [] | Some w \<Rightarrow> [Call_at w])
       (Some TypeError)"
  by (simp add: wakeup_def Let_def next_wakeup_def split: list.split)

text \<open>
  A handler of unset size 0 with nothing in flight and the waiter 2 in its queue is
  reached from a fresh handler: a first caller is admitted, a second one waits, and the
  first one fails before any response (\<open>exit(None)\<close>), which releases nobody.
\<close>

lemma enter_queued_reachable:
  "RatelimitHandler_init \<lparr>group_id = 26880, limiter = LIMITER_GLOBAL, size_g = 0\<rparr> GLOBALLY_LIMITED
     = \<lparr>parent = \<lparr>group_id = 26880, limiter = LIMITER_GLOBAL, size_g = 0\<rparr>,
        limiter_id = GLOBALLY_LIMITED, drops = [], active = 0, queue = None,
        wakeupper = None\<rparr>"
  "enter \<lparr>parent = \<lparr>group_id = 26880, limiter = LIMITER_GLOBAL, size_g = 0\<rparr>,
        limiter_id = GLOBALLY_LIMITED, drops = [], active = 0, queue = None,
        wakeupper = None\<rparr> 1
     = (\<lparr>parent = \<lparr>group_id = 26880, limiter = LIMITER_GLOBAL, size_g = 0\<rparr>,
        limiter_id = GLOBALLY_LIMITED, drops = [], active = 1, queue = Some [],
        wakeupper = None\<rparr>, Returned)"
  "enter \<lparr>parent = \<lparr>group_id = 26880, limiter = LIMITER_GLOBAL, size_g = 0\<rparr>,
        limiter_id = GLOBALLY_LIMITED, drops = [], active = 1, queue = Some [],
        wakeupper = None\<rparr> 2
     = (\<lparr>parent = \<lparr>group_id = 26880, limiter = LIMITER_GLOBAL, size_g = 0\<rparr>,
        limiter_id = GLOBALLY_LIMITED, drops = [], active = 1, queue = Some [2],
        wakeupper = None\<rparr>, Suspended)"
  "exit \<lparr>parent = \<lparr>group_id = 26880, limiter = LIMITER_GLOBAL, size_g = 0\<rparr>,
        limiter_id = GLOBALLY_LIMITED, drops = [], active = 1, queue = Some [2],
        wakeupper = None\<rparr> None 5
     = Outcome \<lparr>parent = \<lparr>group_id = 26880, limiter = LIMITER_GLOBAL, size_g = 0\<rparr>,
        limiter_id = GLOBALLY_LIMITED, drops = [], active = 0, queue = Some [2],
        wakeupper = None\<rparr> [] None"
proof -
  have q: "queue \<lparr>parent = \<lparr>group_id = 26880, limiter = LIMITER_GLOBAL, size_g = 0\<rparr>,
        limiter_id = GLOBALLY_LIMITED, drops = [], active = 0, queue = Some [2],
        wakeupper = None\<rparr> = Some [2]"
    by simp
  show "RatelimitHandler_init \<lparr>group_id = 26880, limiter = LIMITER_GLOBAL, size_g = 0\<rparr> GLOBALLY_LIMITED
     = \<lparr>parent = \<lparr>group_id = 26880, limiter = LIMITER_GLOBAL, size_g = 0\<rparr>,
        limiter_id = GLOBALLY_LIMITED, drops = [], active = 0, queue = None,
        wakeupper = None\<rparr>"
    by (simp add: RatelimitHandler_init_def)
  show "enter \<lparr>parent = \<lparr>group_id = 26880, limiter = LIMITER_GLOBAL, size_g = 0\<rparr>,
        limiter_id = GLOBALLY_LIMITED, drops = [], active = 0, queue = None,
        wakeupper = None\<rparr> 1
     = (\<lparr>parent = \<lparr>group_id = 26880, limiter = LIMITER_GLOBAL, size_g = 0\<rparr>,
        limiter_id = GLOBALLY_LIMITED, drops = [], active = 1, queue = Some [],
        wakeupper = None\<rparr>, Returned)"
    by (simp add: enter_def Let_def count_drops_def UNLIMITED_SIZE_VALUE_def)
  show "enter \<lparr>parent = \<lparr>group_id = 26880, limiter = LIMITER_GLOBAL, size_g = 0\<rparr>,
        limiter_id = GLOBALLY_LIMITED, drops = [], active = 1, queue = Some [],
        wakeupper = None\<rparr> 2
     = (\<lparr>parent = \<lparr>group_id = 26880, limiter = LIMITER_GLOBAL, size_g = 0\<rparr>,
        limiter_id = GLOBALLY_LIMITED, drops = [], active = 1, queue = Some [2],
        wakeupper = None\<rparr>, Suspended)"
    by (simp add: enter_def Let_def count_drops_def UNLIMITED_SIZE_VALUE_def)
  show "exit \<lparr>parent = \<lparr>group_id = 26880, limiter = LIMITER_GLOBAL, size_g = 0\<rparr>,
        limiter_id = GLOBALLY_LIMITED, drops = [], active = 1, queue = Some [2],
        wakeupper = None\<rparr> None 5
     = Outcome \<lparr>parent = \<lparr>group_id = 26880, limiter = LIMITER_GLOBAL, size_g = 0\<rparr>,
        limiter_id = GLOBALLY_LIMITED, drops = [], active = 0, queue = Some [2],
        wakeupper = None\<rparr> [] None"
    by (simp add: exit_def exit_size_def Let_def UNLIMITED_SIZE_VALUE_def wakeup_queued [OF q]
        can_free_of_def next_wakeup_def)
qed









text \<open>
  \<open>wakeup()\<close> is given that handler by \<open>exit(None)\<close> on the handler of size 0 with nothing
  in flight and the waiter 2 queued, the end of the run above: \<open>active\<close> goes from 0
  to -1 before \<open>wakeup()\<close> is called.
\<close>

lemma wakeup_negative_active_reachable:
  "exit \<lparr>parent = \<lparr>group_id = 26880, limiter = LIMITER_GLOBAL, size_g = 0\<rparr>,
        limiter_id = GLOBALLY_LIMITED, drops = [], active = 0, queue = Some [2],
        wakeupper = None\<rparr> None 6
     = Outcome \<lparr>parent = \<lparr>group_id = 26880, limiter = LIMITER_GLOBAL, size_g = 0\<rparr>,
        limiter_id = GLOBALLY_LIMITED, drops = [], active = - 1, queue = Some [],
        wakeupper = None\<rparr> [Set_result 2] None"
proof -
  have q: "queue \<lparr>parent = \<lparr>group_id = 26880, limiter = LIMITER_GLOBAL, size_g = 0\<rparr>,
        limiter_id = GLOBALLY_LIMITED, drops = [], active = - 1, queue = Some [2],
        wakeupper = None\<rparr> = Some [2]"
    by simp
  show ?thesis
    by (simp add: exit_def exit_size_def Let_def UNLIMITED_SIZE_VALUE_def wakeup_queued [OF q]
        can_free_of_def next_wakeup_def)
qed

subsection \<open>\<open>exit\<close> without headers\<close>

lemma exit_headerless:
  assumes "size_g (parent self) \<noteq> UNLIMITED_SIZE_VALUE"
  shows "exit self None now =
     (case wakeup (self\<lparr>active := active self - 1, wakeupper := None\<rparr>) of
        Outcome self3 ev' r \<Rightarrow>
          Outcome self3 ((case wakeupper self of None \<Rightarrow> [] | Some w \<Rightarrow> [Cancel w]) @ ev') r)"
proof -
  have cancel: "(case wakeupper (self\<lparr>active := active self - 1\<rparr>) of
        None \<Rightarrow> (self\<lparr>active := active self - 1\<rparr>, [])
      | Some when \<Rightarrow> (self\<lparr>active := active self - 1, wakeupper := None\<rparr>, [Cancel when]))
      = (self\<lparr>active := active self - 1, wakeupper := None\<rparr>,
         (case wakeupper self of None \<Rightarrow> [] | Some w \<Rightarrow> [Cancel w]))"
    by (cases self) (simp split: option.split)
  show ?thesis
    unfolding exit_def Let_def cancel using assms
    by (simp add: exit_size_def)
qed

text \<open>
  Claim C4, as the source has it. On a handler that is not unlimited and whose queue
  exists, \<open>exit(None)\<close> decrements \<open>active\<close>, cancels the scheduled wakeup if there is
  one, and runs \<open>wakeup()\<close>: the head of the cooldown chain is discarded, the wakeup is
  scheduled again for the next node if one is left, and the first waiters of the queue
  are released, as many as the free capacity \<open>\<bar>size\<bar> - active - count_drops()\<close> allows.
  No cooldown node is created. With \<open>active = 1\<close>, no cooldown and two waiters, both are
  released when the size is 2 or more in absolute value.
\<close>

theorem exit_without_headers:
  assumes "size_g (parent self) \<noteq> UNLIMITED_SIZE_VALUE" and "queue self = Some q"
  shows "exit self None now =
       Outcome
         (self\<lparr>active := active self - 1, drops := tl (drops self),
               wakeupper := next_wakeup (tl (drops self)),
               queue := Some (drop (can_free_of (self\<lparr>active := active self - 1, drops := tl (drops self)\<rparr>) q) q)\<rparr>)
         ((case wakeupper self of None \<Rightarrow> [] | Some w \<Rightarrow> [Cancel w])
            @ (case next_wakeup (tl (drops self)) of None \<Rightarrow> [] | Some w \<Rightarrow> [Call_at w])
            @ map Set_result (take (can_free_of (self\<lparr>active := active self - 1, drops := tl (drops self)\<rparr>) q) q))
         None
     \<and> (active self = 1 \<and> drops self = [] \<and> q = [a, b] \<and> 2 \<le> \<bar>size_g (parent self)\<bar> \<longrightarrow>
          handler_of (exit self None now)
            = self\<lparr>active := 0, drops := [], wakeupper := None, queue := Some []\<rparr>
          \<and> events_of (exit self None now)
            = (case wakeupper self of None \<Rightarrow> [] | Some w \<Rightarrow> [Cancel w]) @ [Set_result a, Set_result b])"
proof -
  let ?s = "self\<lparr>active := active self - 1, wakeupper := None\<rparr>"
  have q: "queue ?s = Some q" using assms(2) by simp
  have main: "exit self None now =
       Outcome
         (self\<lparr>active := active self - 1, drops := tl (drops self),
               wakeupper := next_wakeup (tl (drops self)),
               queue := Some (drop (can_free_of (self\<lparr>active := active self - 1, drops := tl (drops self)\<rparr>) q) q)\<rparr>)
         ((case wakeupper self of None \<Rightarrow> [] | Some w \<Rightarrow> [Cancel w])
            @ (case next_wakeup (tl (drops self)) of None \<Rightarrow> [] | Some w \<Rightarrow> [Call_at w])
            @ map Set_result (take (can_free_of (self\<lparr>active := active self - 1, drops := tl (drops self)\<rparr>) q) q))
         None"
    by (simp add: exit_headerless [OF assms(1)] wakeup_queued [OF q] can_free_of_def)
  have two: "active self = 1 \<and> drops self = [] \<and> q = [a, b] \<and> 2 \<le> \<bar>size_g (parent self)\<bar> \<longrightarrow>
          handler_of (exit self None now)
            = self\<lparr>active := 0, drops := [], wakeupper := None, queue := Some []\<rparr>
          \<and> events_of (exit self None now)
            = (case wakeupper self of None \<Rightarrow> [] | Some w \<Rightarrow> [Cancel w]) @ [Set_result a, Set_result b]"
    unfolding main by (auto simp: can_free_of_def next_wakeup_def min_def)
  from main two show ?thesis by blast
qed

text \<open>
  Size 3, one request in flight, two slots in cooldown until 5, two waiters: the node is
  discarded and both waiters are released. Size 2, one request in flight, no cooldown,
  two waiters: both are released.
\<close>

theorem exit_without_headers_witness:
  "exit \<lparr>parent = \<lparr>group_id = 26880, limiter = LIMITER_GLOBAL, size_g = 3\<rparr>,
          limiter_id = GLOBALLY_LIMITED, drops = [\<lparr>drop_t = 5, allocates = 2\<rparr>], active = 1,
          queue = Some [7, 8], wakeupper = Some 5\<rparr> None 4
     = Outcome \<lparr>parent = \<lparr>group_id = 26880, limiter = LIMITER_GLOBAL, size_g = 3\<rparr>,
          limiter_id = GLOBALLY_LIMITED, drops = [], active = 0,
          queue = Some [], wakeupper = None\<rparr> [Cancel 5, Set_result 7, Set_result 8] None
   \<and> exit \<lparr>parent = \<lparr>group_id = 26880, limiter = LIMITER_GLOBAL, size_g = 2\<rparr>,
          limiter_id = GLOBALLY_LIMITED, drops = [], active = 1,
          queue = Some [7, 8], wakeupper = None\<rparr> None 4
     = Outcome \<lparr>parent = \<lparr>group_id = 26880, limiter = LIMITER_GLOBAL, size_g = 2\<rparr>,
          limiter_id = GLOBALLY_LIMITED, drops = [], active = 0,
          queue = Some [], wakeupper = None\<rparr> [Set_result 7, Set_result 8] None"
  using
    exit_without_headers [of "\<lparr>parent = \<lparr>group_id = 26880, limiter = LIMITER_GLOBAL, size_g = 3\<rparr>,
          limiter_id = GLOBALLY_LIMITED, drops = [\<lparr>drop_t = 5, allocates = 2\<rparr>], active = 1,
          queue = Some [7, 8], wakeupper = Some 5\<rparr>" "[7, 8]" 4 7 8]
    exit_without_headers [of "\<lparr>parent = \<lparr>group_id = 26880, limiter = LIMITER_GLOBAL, size_g = 2\<rparr>,
          limiter_id = GLOBALLY_LIMITED, drops = [], active = 1,
          queue = Some [7, 8], wakeupper = None\<rparr>" "[7, 8]" 4 7 8]
  by (simp add: UNLIMITED_SIZE_VALUE_def can_free_of_def next_wakeup_def)

text \<open>
  Against claim C4 as it is stated: size 1, one request in flight, no cooldown, the
  waiters 7 and 8 queued. \<open>exit(None)\<close> releases the waiter 7 only; 8 stays queued.
\<close>

theorem exit_without_headers_counterexample:
  "exit \<lparr>parent = \<lparr>group_id = 26880, limiter = LIMITER_GLOBAL, size_g = 1\<rparr>,
          limiter_id = GLOBALLY_LIMITED, drops = [], active = 1, queue = Some [7, 8],
          wakeupper = None\<rparr> None 0
     = Outcome \<lparr>parent = \<lparr>group_id = 26880, limiter = LIMITER_GLOBAL, size_g = 1\<rparr>,
          limiter_id = GLOBALLY_LIMITED, drops = [], active = 0, queue = Some [8],
          wakeupper = None\<rparr> [Set_result 7] None"
proof -
  have "queue \<lparr>parent = \<lparr>group_id = 26880, limiter = LIMITER_GLOBAL, size_g = 1\<rparr>,
          limiter_id = GLOBALLY_LIMITED, drops = [], active = 0, queue = Some [7, 8],
          wakeupper = None\<rparr> = Some [7, 8]" by simp
  note w = wakeup_queued [OF this]
  show ?thesis
    by (simp add: exit_def exit_size_def Let_def UNLIMITED_SIZE_VALUE_def w can_free_of_def
        next_wakeup_def)
qed

subsection \<open>\<open>exit\<close> with headers\<close>

lemma exit_free_queued:
  assumes "queue self = Some q"
  shows "exit_free self size1 current_size allocates_v =
     (Outcome (self\<lparr>queue := Some (drop (nat (min (size1 - current_size) (int (length q)))) q)\<rparr>)
        (map Set_result (take (nat (min (size1 - current_size) (int (length q)))) q)) None,
      allocates_v)"
proof (cases "size1 - current_size > int (length q)")
  case True
  have "free_waiters (int (length q)) q [] = Inr ([] @ take (nat (int (length q))) q, drop (nat (int (length q))) q)"
    by (rule free_waiters_take) simp
  with True assms show ?thesis
    by (simp add: exit_free_def Let_def min_def)
next
  case False
  then have "size1 - current_size \<le> int (length q)" by simp
  then have "free_waiters (size1 - current_size) q []
      = Inr ([] @ take (nat (size1 - current_size)) q, drop (nat (size1 - current_size)) q)"
    by (rule free_waiters_take)
  with False assms show ?thesis
    by (simp add: exit_free_def Let_def min_def)
qed

lemma exit_free_unqueued:
  "queue self = None \<Longrightarrow>
     exit_free self size1 current_size allocates_v = (Outcome self [] (Some TypeError), allocates_v)"
  by (simp add: exit_free_def)

lemma exit_free_parent:
  "parent (handler_of (fst (exit_free self size1 current_size allocates_v))) = parent self"
  by (cases "queue self") (simp_all add: exit_free_unqueued exit_free_queued)

lemma exit_resize_parent:
  "parent (handler_of (fst (exit_resize self hs size1 current_size optimistic)))
     = (if size1 \<noteq> current_size then (parent self)\<lparr>size_g := size1\<rparr> else parent self)"
  by (simp add: exit_resize_def Let_def exit_free_parent split: option.split)

lemma exit_schedule_parent:
  "parent (fst (exit_schedule self new_drop allocates_v)) = parent self"
  by (simp add: exit_schedule_def Let_def split: option.split)

lemma wakeup_parent: "parent (handler_of (wakeup self)) = parent self"
  by (cases "queue self") (simp_all add: wakeup_unqueued wakeup_queued)

lemma exit_parent:
  "parent (handler_of (exit self hdrs now)) =
     (if size_g (parent self) = UNLIMITED_SIZE_VALUE then parent self
      else case exit_size hdrs (size_g (parent self)) of
             None \<Rightarrow> parent self
           | Some (hs, size1, optimistic) \<Rightarrow> (parent self)\<lparr>size_g := size1\<rparr>)"
proof (cases "size_g (parent self) = UNLIMITED_SIZE_VALUE")
  case True
  then show ?thesis by (simp add: exit_def)
next
  case unl: False
  let ?self1 = "self\<lparr>active := active self - 1\<rparr>"
  show ?thesis
  proof (cases "exit_size hdrs (size_g (parent self))")
    case None
    then have h: "hdrs = None \<or> (\<exists>hs. hdrs = Some hs)" by (cases hdrs) simp_all
    obtain s2 ev where c: "(case wakeupper ?self1 of None \<Rightarrow> (?self1, [])
        | Some when \<Rightarrow> (?self1\<lparr>wakeupper := None\<rparr>, [Cancel when])) = (s2, ev)"
      by (cases "wakeupper ?self1") simp_all
    then have p: "parent s2 = parent self" by (auto split: option.splits)
    obtain s3 ev' r where w: "wakeup s2 = Outcome s3 ev' r" by (cases "wakeup s2")
    with wakeup_parent [of s2] have "parent s3 = parent s2" by simp
    with p unl None show ?thesis
      unfolding exit_def Let_def c by (simp add: w)
  next
    case (Some t)
    obtain hs size1 optimistic where t: "t = (hs, size1, optimistic)" by (cases t)
    obtain s2 ev r al where rz:
      "exit_resize ?self1 hs size1 (size_g (parent self)) optimistic = (Outcome s2 ev r, al)"
      by (metis outcome.exhaust surj_pair)
    with exit_resize_parent [of ?self1 hs size1 "size_g (parent self)" optimistic]
    have p2: "parent s2 = (parent self)\<lparr>size_g := size1\<rparr>"
      by (simp split: if_splits)
    show ?thesis
    proof (cases r)
      case (Some e)
      with unl \<open>exit_size hdrs (size_g (parent self)) = Some t\<close> t rz p2 show ?thesis
        by (simp add: exit_def Let_def)
    next
      case None
      show ?thesis
      proof (cases "exit_delay hs optimistic")
        case (Inl e)
        with unl \<open>exit_size hdrs (size_g (parent self)) = Some t\<close> t rz p2 None show ?thesis
          by (simp add: exit_def Let_def)
      next
        case (Inr delay)
        obtain s3 ev' where sc: "exit_schedule s2 (now + delay) al = (s3, ev')"
          by (cases "exit_schedule s2 (now + delay) al")
        with exit_schedule_parent [of s2 "now + delay" al] have "parent s3 = parent s2" by simp
        with unl \<open>exit_size hdrs (size_g (parent self)) = Some t\<close> t rz p2 None Inr sc show ?thesis
          by (simp add: exit_def Let_def)
      qed
    qed
  qed
qed

lemma exit_size_g:
  "size_g (parent (handler_of (exit self hdrs now))) =
     (if size_g (parent self) = UNLIMITED_SIZE_VALUE then size_g (parent self)
      else case exit_size hdrs (size_g (parent self)) of
             None \<Rightarrow> size_g (parent self)
           | Some (hs, size1, optimistic) \<Rightarrow> size1)"
  by (simp add: exit_parent split: option.split)

lemma exit_lacking_limit:
  assumes "lacks_limit hdrs"
  shows "size_g (parent (handler_of (exit self hdrs now))) =
     (if hdrs \<noteq> None \<and> MAXIMAL_UNLIMITED_PARARELLITY < size_g (parent self)
          \<and> size_g (parent self) < 0
      then size_g (parent self) - 1 else size_g (parent self))"
  using assms
  by (auto simp: exit_size_g exit_size_def lacks_limit_def UNLIMITED_SIZE_VALUE_def
      MAXIMAL_UNLIMITED_PARARELLITY_def split: option.splits)

lemma exits_lacking_limit:
  assumes "\<forall>c\<in>set calls. lacks_limit (fst c)"
    and "MAXIMAL_UNLIMITED_PARARELLITY \<le> size_g (parent self)"
  shows "MAXIMAL_UNLIMITED_PARARELLITY \<le> size_g (parent (exits self calls))
     \<and> size_g (parent (exits self calls)) \<le> size_g (parent self)"
  using assms
proof (induction calls arbitrary: self)
  case Nil
  then show ?case by simp
next
  case (Cons c calls)
  obtain hdrs now where c: "c = (hdrs, now)" by (cases c)
  let ?self1 = "handler_of (exit self hdrs now)"
  from Cons.prems(1) c have l: "lacks_limit hdrs" by simp
  have step: "MAXIMAL_UNLIMITED_PARARELLITY \<le> size_g (parent ?self1)
      \<and> size_g (parent ?self1) \<le> size_g (parent self)"
    using Cons.prems(2) by (simp add: exit_lacking_limit [OF l])
  from Cons.prems(1) have "\<forall>c\<in>set calls. lacks_limit (fst c)" by simp
  with step have "MAXIMAL_UNLIMITED_PARARELLITY \<le> size_g (parent (exits ?self1 calls))
     \<and> size_g (parent (exits ?self1 calls)) \<le> size_g (parent ?self1)"
    by (intro Cons.IH) simp_all
  with step c show ?case by simp
qed

text \<open>
  Claim C9. Optimistic widening is bounded. Along every run of \<open>exit\<close> calls whose
  headers lack the explicit limit header, on a handler whose \<open>parent.size\<close> is at least
  \<open>MAXIMAL_UNLIMITED_PARARELLITY = -50\<close>, \<open>parent.size\<close> never goes below -50; and once
  \<open>parent.size\<close> is -50 it stays -50 along every such run.
\<close>

theorem optimistic_widening_bounded:
  assumes "\<forall>c\<in>set calls. lacks_limit (fst c)"
    and "MAXIMAL_UNLIMITED_PARARELLITY \<le> size_g (parent self)"
  shows "MAXIMAL_UNLIMITED_PARARELLITY = - 50
     \<and> (\<forall>n. MAXIMAL_UNLIMITED_PARARELLITY \<le> size_g (parent (exits self (take n calls))))
     \<and> (size_g (parent self) = MAXIMAL_UNLIMITED_PARARELLITY \<longrightarrow>
          (\<forall>n. size_g (parent (exits self (take n calls))) = MAXIMAL_UNLIMITED_PARARELLITY))"
proof -
  have bounds: "MAXIMAL_UNLIMITED_PARARELLITY \<le> size_g (parent (exits self (take n calls)))
     \<and> size_g (parent (exits self (take n calls))) \<le> size_g (parent self)" for n
  proof (rule exits_lacking_limit)
    show "\<forall>c\<in>set (take n calls). lacks_limit (fst c)"
      using assms(1) by (meson in_set_takeD)
    show "MAXIMAL_UNLIMITED_PARARELLITY \<le> size_g (parent self)" by (rule assms(2))
  qed
  then show ?thesis
    by (auto simp: MAXIMAL_UNLIMITED_PARARELLITY_def intro: antisym)
qed

text \<open>
  From size -49, one headerless response widens the estimate to -50 and the next one
  leaves it there; from size -50 two headerless responses leave it at -50.
\<close>

theorem optimistic_widening_bounded_witness:
  "lacks_limit (Some no_headers)
   \<and> MAXIMAL_UNLIMITED_PARARELLITY \<le> - 49
   \<and> size_g (parent (exits
        \<lparr>parent = \<lparr>group_id = 26880, limiter = LIMITER_GLOBAL, size_g = - 49\<rparr>,
         limiter_id = GLOBALLY_LIMITED, drops = [], active = 2, queue = Some [],
         wakeupper = None\<rparr> [(Some no_headers, 10)])) = - 50
   \<and> - 50 \<le> size_g (parent (exits
        \<lparr>parent = \<lparr>group_id = 26880, limiter = LIMITER_GLOBAL, size_g = - 49\<rparr>,
         limiter_id = GLOBALLY_LIMITED, drops = [], active = 2, queue = Some [],
         wakeupper = None\<rparr> [(Some no_headers, 10), (Some no_headers, 11)]))
   \<and> size_g (parent (exits
        \<lparr>parent = \<lparr>group_id = 26880, limiter = LIMITER_GLOBAL, size_g = - 50\<rparr>,
         limiter_id = GLOBALLY_LIMITED, drops = [], active = 2, queue = Some [],
         wakeupper = None\<rparr> [(Some no_headers, 10), (Some no_headers, 11)])) = - 50"
proof -
  have l: "\<forall>c\<in>set [(Some no_headers, 10), (Some no_headers, 11)]. lacks_limit (fst c)"
    by (simp add: lacks_limit_def no_headers_def)
  have m: "MAXIMAL_UNLIMITED_PARARELLITY \<le> - 49" "MAXIMAL_UNLIMITED_PARARELLITY \<le> - 50"
    by (simp_all add: MAXIMAL_UNLIMITED_PARARELLITY_def)
  have one: "size_g (parent (exits
        \<lparr>parent = \<lparr>group_id = 26880, limiter = LIMITER_GLOBAL, size_g = - 49\<rparr>,
         limiter_id = GLOBALLY_LIMITED, drops = [], active = 2, queue = Some [],
         wakeupper = None\<rparr> [(Some no_headers, 10)])) = - 50"
    by (simp add: exit_size_g exit_size_def no_headers_def UNLIMITED_SIZE_VALUE_def
        MAXIMAL_UNLIMITED_PARARELLITY_def)
  have a: "\<forall>n. MAXIMAL_UNLIMITED_PARARELLITY \<le> size_g (parent (exits
        \<lparr>parent = \<lparr>group_id = 26880, limiter = LIMITER_GLOBAL, size_g = - 49\<rparr>,
         limiter_id = GLOBALLY_LIMITED, drops = [], active = 2, queue = Some [],
         wakeupper = None\<rparr> (take n [(Some no_headers, 10), (Some no_headers, 11)])))"
    using optimistic_widening_bounded [of "[(Some no_headers, 10), (Some no_headers, 11)]"
        "\<lparr>parent = \<lparr>group_id = 26880, limiter = LIMITER_GLOBAL, size_g = - 49\<rparr>,
         limiter_id = GLOBALLY_LIMITED, drops = [], active = 2, queue = Some [],
         wakeupper = None\<rparr>"] l m
    by simp
  have b: "\<forall>n. size_g (parent (exits
        \<lparr>parent = \<lparr>group_id = 26880, limiter = LIMITER_GLOBAL, size_g = - 50\<rparr>,
         limiter_id = GLOBALLY_LIMITED, drops = [], active = 2, queue = Some [],
         wakeupper = None\<rparr> (take n [(Some no_headers, 10), (Some no_headers, 11)]))) = MAXIMAL_UNLIMITED_PARARELLITY"
    using optimistic_widening_bounded [of "[(Some no_headers, 10), (Some no_headers, 11)]"
        "\<lparr>parent = \<lparr>group_id = 26880, limiter = LIMITER_GLOBAL, size_g = - 50\<rparr>,
         limiter_id = GLOBALLY_LIMITED, drops = [], active = 2, queue = Some [],
         wakeupper = None\<rparr>"] l m
    by (simp add: MAXIMAL_UNLIMITED_PARARELLITY_def)
  from a [rule_format, of 2] b [rule_format, of 2] l m one show ?thesis
    by (simp add: MAXIMAL_UNLIMITED_PARARELLITY_def)
qed

text \<open>
  Claim C8, as the source has it. A second \<open>exit\<close> with the same headers leaves
  \<open>parent.size\<close> as the first one left it exactly when no widening is due twice: when
  the headers are \<open>None\<close> or carry the explicit limit header, or when \<open>parent.size\<close> was
  not an optimistic estimate between -48 and -1 before the first call. Headers that
  lack the limit header widen an optimistic estimate at each call, down to -50.
\<close>

theorem exit_size_idempotent:
  "(size_g (parent (handler_of (exit (handler_of (exit self hdrs now1)) hdrs now2)))
      = size_g (parent (handler_of (exit self hdrs now1))))
   \<longleftrightarrow> \<not> (hdrs \<noteq> None \<and> lacks_limit hdrs
          \<and> MAXIMAL_UNLIMITED_PARARELLITY + 1 < size_g (parent self) \<and> size_g (parent self) < 0)"
  by (auto simp: exit_size_g exit_size_def lacks_limit_def UNLIMITED_SIZE_VALUE_def
      MAXIMAL_UNLIMITED_PARARELLITY_def split: option.splits)

text \<open>
  The optimistic size -1 and a response with the limit 5: the size is 5 after the first
  call and after the second.
\<close>

theorem exit_size_idempotent_witness:
  "\<not> lacks_limit (Some \<lparr>RATELIMIT_LIMIT = Some 5, RATELIMIT_REMAINING = Some 5,
        RATELIMIT_RESET = Some 1001, DATE = Some 1000, RATELIMIT_RESET_AFTER = Some 1\<rparr>)
   \<and> size_g (parent (handler_of (exit
      \<lparr>parent = \<lparr>group_id = 26880, limiter = LIMITER_GLOBAL, size_g = - 1\<rparr>,
       limiter_id = GLOBALLY_LIMITED, drops = [], active = 1, queue = Some [7],
       wakeupper = None\<rparr>
      (Some \<lparr>RATELIMIT_LIMIT = Some 5, RATELIMIT_REMAINING = Some 5,
        RATELIMIT_RESET = Some 1001, DATE = Some 1000, RATELIMIT_RESET_AFTER = Some 1\<rparr>) 10))) = 5
   \<and> size_g (parent (handler_of (exit (handler_of (exit
      \<lparr>parent = \<lparr>group_id = 26880, limiter = LIMITER_GLOBAL, size_g = - 1\<rparr>,
       limiter_id = GLOBALLY_LIMITED, drops = [], active = 1, queue = Some [7],
       wakeupper = None\<rparr>
      (Some \<lparr>RATELIMIT_LIMIT = Some 5, RATELIMIT_REMAINING = Some 5,
        RATELIMIT_RESET = Some 1001, DATE = Some 1000, RATELIMIT_RESET_AFTER = Some 1\<rparr>) 10))
      (Some \<lparr>RATELIMIT_LIMIT = Some 5, RATELIMIT_REMAINING = Some 5,
        RATELIMIT_RESET = Some 1001, DATE = Some 1000, RATELIMIT_RESET_AFTER = Some 1\<rparr>) 11))) = 5"
proof -
  have l: "\<not> lacks_limit (Some \<lparr>RATELIMIT_LIMIT = Some 5, RATELIMIT_REMAINING = Some 5,
        RATELIMIT_RESET = Some 1001, DATE = Some 1000, RATELIMIT_RESET_AFTER = Some 1\<rparr>)"
    by (simp add: lacks_limit_def)
  have first: "size_g (parent (handler_of (exit
      \<lparr>parent = \<lparr>group_id = 26880, limiter = LIMITER_GLOBAL, size_g = - 1\<rparr>,
       limiter_id = GLOBALLY_LIMITED, drops = [], active = 1, queue = Some [7],
       wakeupper = None\<rparr>
      (Some \<lparr>RATELIMIT_LIMIT = Some 5, RATELIMIT_REMAINING = Some 5,
        RATELIMIT_RESET = Some 1001, DATE = Some 1000, RATELIMIT_RESET_AFTER = Some 1\<rparr>) 10))) = 5"
    by (simp add: exit_size_g exit_size_def UNLIMITED_SIZE_VALUE_def)
  show ?thesis
    using l first
      exit_size_idempotent [of
        "\<lparr>parent = \<lparr>group_id = 26880, limiter = LIMITER_GLOBAL, size_g = - 1\<rparr>,
          limiter_id = GLOBALLY_LIMITED, drops = [], active = 1, queue = Some [7],
          wakeupper = None\<rparr>"
        "Some \<lparr>RATELIMIT_LIMIT = Some 5, RATELIMIT_REMAINING = Some 5,
          RATELIMIT_RESET = Some 1001, DATE = Some 1000, RATELIMIT_RESET_AFTER = Some 1\<rparr>" 10 11]
    by simp
qed

text \<open>
  Against claim C8 as it is stated: the optimistic size -1 and twice the same response
  without the limit header. The first call leaves the size at -2, the second at -3.
\<close>

theorem exit_size_idempotent_counterexample:
  "size_g (parent (handler_of (exit
      \<lparr>parent = \<lparr>group_id = 26880, limiter = LIMITER_GLOBAL, size_g = - 1\<rparr>,
       limiter_id = GLOBALLY_LIMITED, drops = [], active = 1, queue = Some [],
       wakeupper = None\<rparr> (Some no_headers) 10))) = - 2
   \<and> size_g (parent (handler_of (exit (handler_of (exit
      \<lparr>parent = \<lparr>group_id = 26880, limiter = LIMITER_GLOBAL, size_g = - 1\<rparr>,
       limiter_id = GLOBALLY_LIMITED, drops = [], active = 1, queue = Some [],
       wakeupper = None\<rparr> (Some no_headers) 10)) (Some no_headers) 11))) = - 3"
  by (simp add: exit_size_g exit_size_def no_headers_def UNLIMITED_SIZE_VALUE_def
      MAXIMAL_UNLIMITED_PARARELLITY_def)

lemma exit_schedule_fields:
  "drops (fst (exit_schedule self new_drop allocates_v)) =
     (case drops self of
        [] \<Rightarrow> [\<lparr>drop_t = new_drop, allocates = allocates_v\<rparr>]
      | u # us \<Rightarrow> update_with u us new_drop allocates_v)"
  "active (fst (exit_schedule self new_drop allocates_v)) = active self"
  "queue (fst (exit_schedule self new_drop allocates_v)) = queue self"
  by (simp_all add: exit_schedule_def Let_def split: option.split)

lemma exit_unfold_lacking_limit:
  assumes "size_g (parent self) < 0" and "size_g (parent self) \<noteq> UNLIMITED_SIZE_VALUE"
    and "RATELIMIT_LIMIT hs = None"
  shows "exit self (Some hs) now =
     (case exit_resize (self\<lparr>active := active self - 1\<rparr>) hs
             (if size_g (parent self) > MAXIMAL_UNLIMITED_PARARELLITY
              then size_g (parent self) - 1 else size_g (parent self))
             (size_g (parent self)) True of
        (Outcome self2 ev (Some e), _) \<Rightarrow> Outcome self2 ev (Some e)
      | (Outcome self2 ev None, allocates_v) \<Rightarrow>
          Outcome (fst (exit_schedule self2 (now + 1) allocates_v))
            (ev @ snd (exit_schedule self2 (now + 1) allocates_v)) None)"
  using assms
  by (simp add: exit_def exit_size_def exit_delay_def Let_def case_prod_unfold
      cong: outcome.case_cong option.case_cong)

lemma exit_resize_optimistic:
  assumes "current_size < 0" and "queue self = Some q"
  shows "exit_resize self hs
       (if current_size > MAXIMAL_UNLIMITED_PARARELLITY then current_size - 1 else current_size)
       current_size True =
     (if current_size > MAXIMAL_UNLIMITED_PARARELLITY
      then (Outcome (self\<lparr>parent := (parent self)\<lparr>size_g := current_size - 1\<rparr>,
                          queue := Some (tl q)\<rparr>)
              (map Set_result (take 1 q)) None, 1)
      else (Outcome self [] None, 1))"
proof (cases "current_size > MAXIMAL_UNLIMITED_PARARELLITY")
  case False
  then show ?thesis by (simp add: exit_resize_def)
next
  case True
  let ?self1 = "self\<lparr>parent := (parent self)\<lparr>size_g := current_size - 1\<rparr>\<rparr>"
  have q1: "queue ?self1 = Some q" using assms(2) by simp
  have k: "nat (min (- (current_size - 1) - (- current_size)) (int (length q))) = min 1 (length q)"
    by (simp add: min_def)
  have d: "drop (min 1 (length q)) q = tl q" and t: "take (min 1 (length q)) q = take 1 q"
    by (cases q; simp)+
  have "exit_resize self hs (current_size - 1) current_size True
      = exit_free ?self1 (- (current_size - 1)) (- current_size) 1"
    using assms(1) by (simp add: exit_resize_def Let_def)
  also have "\<dots> = (Outcome (?self1\<lparr>queue := Some (tl q)\<rparr>) (map Set_result (take 1 q)) None, 1)"
    unfolding exit_free_queued [OF q1] k d t ..
  finally show ?thesis using True by simp
qed

text \<open>
  Claim C5, as the source has it. On a handler that is not unlimited, whose queue
  exists and whose \<open>parent.size\<close> is a negative optimistic estimate, \<open>exit(headers)\<close>
  with headers that lack the explicit limit header moves \<open>parent.size\<close> one further
  from zero as long as it is above \<open>MAXIMAL_UNLIMITED_PARARELLITY = -50\<close> (the first
  waiter of the queue, if any, is then released), and leaves it as it is otherwise. In
  both cases \<open>active\<close> is decremented and a cooldown of one second with \<open>allocates = 1\<close>
  is recorded: a new chain when there was none, \<open>update_with\<close> on the head otherwise.
\<close>

theorem exit_optimistic:
  assumes "size_g (parent self) < 0" and "size_g (parent self) \<noteq> UNLIMITED_SIZE_VALUE"
    and "RATELIMIT_LIMIT hs = None" and "queue self = Some q"
  shows "raised_of (exit self (Some hs) now) = None
     \<and> size_g (parent (handler_of (exit self (Some hs) now)))
         = (if MAXIMAL_UNLIMITED_PARARELLITY < size_g (parent self)
            then size_g (parent self) - 1 else size_g (parent self))
     \<and> drops (handler_of (exit self (Some hs) now))
         = (case drops self of
              [] \<Rightarrow> [\<lparr>drop_t = now + 1, allocates = 1\<rparr>]
            | u # us \<Rightarrow> update_with u us (now + 1) 1)
     \<and> active (handler_of (exit self (Some hs) now)) = active self - 1
     \<and> queue (handler_of (exit self (Some hs) now))
         = Some (if MAXIMAL_UNLIMITED_PARARELLITY < size_g (parent self) then tl q else q)"
proof -
  let ?self1 = "self\<lparr>active := active self - 1\<rparr>"
  have q1: "queue ?self1 = Some q" using assms(4) by simp
  note rz = exit_resize_optimistic [OF assms(1) q1, of hs]
  show ?thesis
    using assms(4)
    by (simp add: exit_unfold_lacking_limit [OF assms(1,2,3)] rz exit_schedule_fields
        exit_schedule_parent)
qed

text \<open>
  The optimistic size -1, one waiter, the clock at 10: the size becomes -2, the ledger
  holds the node (11, 1) and the waiter is released.
\<close>

theorem exit_optimistic_witness:
  "size_g (parent (handler_of (exit
      \<lparr>parent = \<lparr>group_id = 26880, limiter = LIMITER_GLOBAL, size_g = - 1\<rparr>,
       limiter_id = GLOBALLY_LIMITED, drops = [], active = 1, queue = Some [7],
       wakeupper = None\<rparr> (Some no_headers) 10))) = - 2
   \<and> drops (handler_of (exit
      \<lparr>parent = \<lparr>group_id = 26880, limiter = LIMITER_GLOBAL, size_g = - 1\<rparr>,
       limiter_id = GLOBALLY_LIMITED, drops = [], active = 1, queue = Some [7],
       wakeupper = None\<rparr> (Some no_headers) 10)) = [\<lparr>drop_t = 11, allocates = 1\<rparr>]
   \<and> queue (handler_of (exit
      \<lparr>parent = \<lparr>group_id = 26880, limiter = LIMITER_GLOBAL, size_g = - 1\<rparr>,
       limiter_id = GLOBALLY_LIMITED, drops = [], active = 1, queue = Some [7],
       wakeupper = None\<rparr> (Some no_headers) 10)) = Some []"
  using exit_optimistic [of
      "\<lparr>parent = \<lparr>group_id = 26880, limiter = LIMITER_GLOBAL, size_g = - 1\<rparr>,
       limiter_id = GLOBALLY_LIMITED, drops = [], active = 1, queue = Some [7],
       wakeupper = None\<rparr>" no_headers "[7]" 10]
  by (simp add: no_headers_def UNLIMITED_SIZE_VALUE_def MAXIMAL_UNLIMITED_PARARELLITY_def)

text \<open>
  Against claim C5 as it is stated: at the optimistic size -50 a response without the
  limit header leaves the size at -50; it is not widened to -51.
\<close>

theorem exit_optimistic_counterexample:
  "size_g (parent (handler_of (exit
      \<lparr>parent = \<lparr>group_id = 26880, limiter = LIMITER_GLOBAL, size_g = - 50\<rparr>,
       limiter_id = GLOBALLY_LIMITED, drops = [], active = 1, queue = Some [],
       wakeupper = None\<rparr> (Some no_headers) 10))) = - 50"
  by (simp add: exit_size_g exit_size_def no_headers_def UNLIMITED_SIZE_VALUE_def
      MAXIMAL_UNLIMITED_PARARELLITY_def)

text \<open>
  A first explicit limit: the optimistic size -1, one waiter, a response with limit 5
  and remaining 5. The size becomes 5, the waiter is released, and the node recorded
  has \<open>allocates = 5 - 5 = 0\<close>.
\<close>

lemma exit_first_limit_example:
  "exit \<lparr>parent = \<lparr>group_id = 26880, limiter = LIMITER_GLOBAL, size_g = - 1\<rparr>,
          limiter_id = GLOBALLY_LIMITED, drops = [], active = 1, queue = Some [7],
          wakeupper = None\<rparr>
        (Some \<lparr>RATELIMIT_LIMIT = Some 5, RATELIMIT_REMAINING = Some 5,
          RATELIMIT_RESET = Some 1001, DATE = Some 1000, RATELIMIT_RESET_AFTER = Some 1\<rparr>) 100
     = Outcome \<lparr>parent = \<lparr>group_id = 26880, limiter = LIMITER_GLOBAL, size_g = 5\<rparr>,
          limiter_id = GLOBALLY_LIMITED, drops = [\<lparr>drop_t = 101, allocates = 0\<rparr>], active = 0,
          queue = Some [], wakeupper = Some 101\<rparr>
        [Set_result 7, Call_at 101] None"
proof -
  have fw: "free_waiters 1 [7] [] = Inr ([] @ take (nat 1) [7], drop (nat 1) [7])"
    by (rule free_waiters_take) simp
  show ?thesis
    by (simp add: exit_def exit_size_def exit_resize_def exit_free_def exit_delay_def
        exit_schedule_def Let_def UNLIMITED_SIZE_VALUE_def fw)
qed

text \<open>
  Claim C3, at an input where the source departs from it. The optimistic estimate has
  been widened to -2 (an effective size of 2), three waiters are queued, and a response
  carries the explicit limit 3. The capacity grows by one slot. The source takes the
  cached size as it is stored: \<open>can_free = 3 - (-2) = 5\<close>, and all three waiters are
  released. (Only the cached value -1 is counted as 1 on this path; the path without
  the limit header negates both sizes before it compares them.)
\<close>

theorem exit_limit_after_widening:
  "exit \<lparr>parent = \<lparr>group_id = 26880, limiter = LIMITER_GLOBAL, size_g = - 2\<rparr>,
          limiter_id = GLOBALLY_LIMITED, drops = [], active = 2, queue = Some [7, 8, 9],
          wakeupper = None\<rparr>
        (Some \<lparr>RATELIMIT_LIMIT = Some 3, RATELIMIT_REMAINING = Some 2,
          RATELIMIT_RESET = Some 1001, DATE = Some 1000, RATELIMIT_RESET_AFTER = Some 1\<rparr>) 100
     = Outcome \<lparr>parent = \<lparr>group_id = 26880, limiter = LIMITER_GLOBAL, size_g = 3\<rparr>,
          limiter_id = GLOBALLY_LIMITED, drops = [\<lparr>drop_t = 101, allocates = 1\<rparr>], active = 1,
          queue = Some [], wakeupper = Some 101\<rparr>
        [Set_result 7, Set_result 8, Set_result 9, Call_at 101] None"
proof -
  have fw: "free_waiters 3 [7, 8, 9] [] = Inr ([] @ take (nat 3) [7, 8, 9], drop (nat 3) [7, 8, 9])"
    by (rule free_waiters_take) simp
  show ?thesis
    by (simp add: exit_def exit_size_def exit_resize_def exit_free_def exit_delay_def
        exit_schedule_def Let_def UNLIMITED_SIZE_VALUE_def fw)
qed

section \<open>Properties of the proxy\<close>

text \<open>
  Claim C6, at an input where the source departs from it. For a group limited by guild,
  a \<open>Guild\<close> resolves to its own \<open>id\<close> and a channel without a guild is refused with
  \<open>ValueError\<close>; a channel that has a guild is not resolved to the \<open>id\<close> of its guild:
  the source reads \<open>group.id\<close>, which raises \<open>AttributeError\<close>, and no proxy is made.
\<close>

theorem proxy_guild_from_channel:
  "RatelimitProxy_new \<lparr>group_id = 26880, limiter = LIMITER_GUILD, size_g = 0\<rparr> (A_Channel 7 (Some 42))
     = Inl AttributeError
   \<and> proxy_limiter_id \<lparr>group_id = 26880, limiter = LIMITER_GUILD, size_g = 0\<rparr> (A_Guild 42) = Inr 42
   \<and> proxy_limiter_id \<lparr>group_id = 26880, limiter = LIMITER_GUILD, size_g = 0\<rparr> (A_Channel 7 None)
     = Inl ValueError"
  by (simp add: RatelimitProxy_new_def proxy_limiter_id_def guild_of_def)

text \<open>
  With no handler resolved the introspection properties return their defaults:
  \<open>free_count\<close> the whole effective size of the group (0 for the unlimited group), the
  others zero.
\<close>

lemma introspection_defaults:
  "used_count None = 0"
  "waiting_count None = 0"
  "next_reset_at None = Inr 0"
  "next_reset_after None now = Inr 0"
  "free_count RatelimitGroup_unlimited None = 0"
  "size_g g \<noteq> UNLIMITED_SIZE_VALUE \<Longrightarrow> free_count g None = effective_size (size_g g)"
  by (simp_all add: used_count_def waiting_count_def next_reset_at_def next_reset_after_def
      free_count_def RatelimitGroup_unlimited_def UNLIMITED_SIZE_VALUE_def effective_size_def Let_def)

text \<open>
  Claim C7, at an input where the source departs from it. When the resolved handler
  has a cooldown node, \<open>next_reset_at\<close> and \<open>next_reset_after\<close> do not return the
  expiry of that node: the subscription \<open>drops[0]\<close> of a \<open>RatelimitUnit\<close> raises
  \<open>TypeError\<close>.
\<close>

theorem next_reset_at_with_cooldown:
  "next_reset_at (Some \<lparr>parent = \<lparr>group_id = 26880, limiter = LIMITER_GLOBAL, size_g = 1\<rparr>,
          limiter_id = GLOBALLY_LIMITED, drops = [\<lparr>drop_t = 10, allocates = 1\<rparr>], active = 0,
          queue = Some [], wakeupper = Some 10\<rparr>) = Inl TypeError
   \<and> next_reset_after (Some \<lparr>parent = \<lparr>group_id = 26880, limiter = LIMITER_GLOBAL, size_g = 1\<rparr>,
          limiter_id = GLOBALLY_LIMITED, drops = [\<lparr>drop_t = 10, allocates = 1\<rparr>], active = 0,
          queue = Some [], wakeupper = Some 10\<rparr>) 4 = Inl TypeError"
  by (simp add: next_reset_at_def next_reset_after_def)

end
